theory Spec2Isabelle
  imports Main
begin

section \<open>Configuration documents\<close>

text \<open>
  Both scripts work on the document that \<^verbatim>\<open>yaml.safe_load\<close> returns: nested Python
  values. Mappings keep the order of the file (\<^verbatim>\<open>.items()\<close> iterates in it), so a
  mapping is an association list. Every key the scripts look up is a string, and the model
  takes mapping keys to be strings; floats, timestamps and tagged values of YAML are left
  out.
\<close>

datatype yaml =
    YNull
  | YBool bool
  | YInt int
  | YStr string
  | YList "yaml list"
  | YMap "(string \<times> yaml) list"

text \<open>The exceptions the scripts can end with. \<open>SystemExit\<close> carries the exit status
  and the line written to the error stream before \<^verbatim>\<open>sys.exit\<close>.\<close>

datatype py_error =
    KeyError
  | IndexError
  | TypeError
  | AttributeError
  | SystemExit nat string

subsection \<open>Python's operations on these values\<close>

text \<open>\<^verbatim>\<open>bool(x)\<close>: None, False, 0 and the empty string, list and dict are false.\<close>

fun py_truthy :: "yaml \<Rightarrow> bool" where
  "py_truthy YNull = False"
| "py_truthy (YBool b) = b"
| "py_truthy (YInt i) = (i \<noteq> 0)"
| "py_truthy (YStr s) = (s \<noteq> [])"
| "py_truthy (YList xs) = (xs \<noteq> [])"
| "py_truthy (YMap m) = (m \<noteq> [])"

text \<open>\<^verbatim>\<open>a == b\<close>: a bool is an int (\<^verbatim>\<open>True == 1\<close>), lists compare element by element,
  dicts compare as mappings, whatever the order of their items.\<close>

fun py_eq :: "yaml \<Rightarrow> yaml \<Rightarrow> bool" where
  "py_eq YNull YNull = True"
| "py_eq (YBool a) (YBool b) = (a = b)"
| "py_eq (YBool a) (YInt i) = (i = (if a then 1 else 0))"
| "py_eq (YInt i) (YBool a) = (i = (if a then 1 else 0))"
| "py_eq (YInt i) (YInt j) = (i = j)"
| "py_eq (YStr s) (YStr t) = (s = t)"
| "py_eq (YList xs) (YList ys) = list_all2 py_eq xs ys"
| "py_eq (YMap a) (YMap b) =
     (length a = length b \<and>
      list_all (\<lambda>(k, v). list_ex (\<lambda>(k', w). k' = k \<and> py_eq v w) b) a)"
| "py_eq _ _ = False"

definition isinstance_list :: "yaml \<Rightarrow> bool" where
  "isinstance_list x = (case x of YList _ \<Rightarrow> True | _ \<Rightarrow> False)"

definition isinstance_str :: "yaml \<Rightarrow> bool" where
  "isinstance_str x = (case x of YStr _ \<Rightarrow> True | _ \<Rightarrow> False)"

text \<open>Lists and dicts are unhashable: using one as a dict key raises TypeError.\<close>

definition hashable :: "yaml \<Rightarrow> bool" where
  "hashable x = (case x of YList _ \<Rightarrow> False | YMap _ \<Rightarrow> False | _ \<Rightarrow> True)"

text \<open>\<^verbatim>\<open>x[key]\<close> with a string key: a dict looks the key up (KeyError when absent); a list
  or a string takes integer indices only, the other values are not subscriptable.\<close>

definition py_getitem :: "yaml \<Rightarrow> string \<Rightarrow> py_error + yaml" where
  "py_getitem x k =
     (case x of
        YMap m \<Rightarrow> (case map_of m k of None \<Rightarrow> Inl KeyError | Some v \<Rightarrow> Inr v)
      | _ \<Rightarrow> Inl TypeError)"

text \<open>\<^verbatim>\<open>x[i]\<close> with a natural number: a list element, a one-character string, IndexError
  out of range; a dict has no integer key.\<close>

definition py_index :: "yaml \<Rightarrow> nat \<Rightarrow> py_error + yaml" where
  "py_index x i =
     (case x of
        YList xs \<Rightarrow> (if i < length xs then Inr (xs ! i) else Inl IndexError)
      | YStr s \<Rightarrow> (if i < length s then Inr (YStr [s ! i]) else Inl IndexError)
      | YMap m \<Rightarrow> Inl KeyError
      | _ \<Rightarrow> Inl TypeError)"

text \<open>\<^verbatim>\<open>x.get(key, default)\<close>: only a dict has the method.\<close>

definition py_get :: "yaml \<Rightarrow> string \<Rightarrow> yaml \<Rightarrow> py_error + yaml" where
  "py_get x k d =
     (case x of
        YMap m \<Rightarrow> Inr (case map_of m k of None \<Rightarrow> d | Some v \<Rightarrow> v)
      | _ \<Rightarrow> Inl AttributeError)"

text \<open>\<^verbatim>\<open>x.items()\<close>.\<close>

definition py_items :: "yaml \<Rightarrow> py_error + (string \<times> yaml) list" where
  "py_items x = (case x of YMap m \<Rightarrow> Inr m | _ \<Rightarrow> Inl AttributeError)"

text \<open>\<^verbatim>\<open>for v in x\<close>: a list gives its elements, a string its characters, a dict its keys.\<close>

definition py_iter :: "yaml \<Rightarrow> py_error + yaml list" where
  "py_iter x =
     (case x of
        YList xs \<Rightarrow> Inr xs
      | YStr s \<Rightarrow> Inr (map (\<lambda>c. YStr [c]) s)
      | YMap m \<Rightarrow> Inr (map (\<lambda>kv. YStr (fst kv)) m)
      | _ \<Rightarrow> Inl TypeError)"

definition py_len :: "yaml \<Rightarrow> py_error + nat" where
  "py_len x =
     (case x of
        YList xs \<Rightarrow> Inr (length xs)
      | YStr s \<Rightarrow> Inr (length s)
      | YMap m \<Rightarrow> Inr (length m)
      | _ \<Rightarrow> Inl TypeError)"

text \<open>\<^verbatim>\<open>s in t\<close> on strings is the substring test.\<close>

fun is_prefix :: "string \<Rightarrow> string \<Rightarrow> bool" where
  "is_prefix [] t = True"
| "is_prefix (c # s) [] = False"
| "is_prefix (c # s) (d # t) = (c = d \<and> is_prefix s t)"

fun is_substring :: "string \<Rightarrow> string \<Rightarrow> bool" where
  "is_substring s [] = (s = [])"
| "is_substring s (d # t) = (is_prefix s (d # t) \<or> is_substring s t)"

text \<open>\<^verbatim>\<open>key in x\<close> with a string key: a key of a dict, an element of a list, a substring
  of a string; TypeError on a value that is not a container.\<close>

definition py_contains :: "string \<Rightarrow> yaml \<Rightarrow> py_error + bool" where
  "py_contains k x =
     (case x of
        YMap m \<Rightarrow> Inr (k \<in> set (map fst m))
      | YList xs \<Rightarrow> Inr (list_ex (\<lambda>v. py_eq v (YStr k)) xs)
      | YStr s \<Rightarrow> Inr (is_substring k s)
      | _ \<Rightarrow> Inl TypeError)"

text \<open>\<^verbatim>\<open>s.replace(old, new)\<close> for one-character \<open>old\<close> and \<open>new\<close>.\<close>

definition str_replace :: "char \<Rightarrow> char \<Rightarrow> string \<Rightarrow> string" where
  "str_replace old new s = map (\<lambda>c. if c = old then new else c) s"

text \<open>Sequencing of steps that may raise: the first exception ends the run.\<close>

definition py_bind :: "py_error + 'a \<Rightarrow> ('a \<Rightarrow> py_error + 'b) \<Rightarrow> py_error + 'b" where
  "py_bind r f = (case r of Inl e \<Rightarrow> Inl e | Inr x \<Rightarrow> f x)"

definition lookup_default :: "(string \<times> yaml) list \<Rightarrow> string \<Rightarrow> yaml \<Rightarrow> yaml" where
  "lookup_default m k d = (case map_of m k of None \<Rightarrow> d | Some v \<Rightarrow> v)"

section \<open>The matrix generator (generate\_matrix.py)\<close>

text \<open>A candidate is a dict with seven fixed keys. The version strings are strings (the
  code calls \<^verbatim>\<open>.replace\<close> on the version); build type and target are whatever the
  configuration holds.\<close>

record MatrixEntry =
  idf_version :: string
  idf_version_docker :: string
  idf_version_file :: string
  build_type :: yaml
  app_name :: string
  target :: yaml
  config_source :: string

definition entry_items :: "MatrixEntry \<Rightarrow> (string \<times> yaml) list" where
  "entry_items e =
     [(''idf_version'', YStr (idf_version e)),
      (''idf_version_docker'', YStr (idf_version_docker e)),
      (''idf_version_file'', YStr (idf_version_file e)),
      (''build_type'', build_type e),
      (''app_name'', YStr (app_name e)),
      (''target'', target e),
      (''config_source'', YStr (config_source e))]"

text \<open>The candidate's field of a given name, for the statement of the exclusion rules.\<close>

definition entry_field :: "MatrixEntry \<Rightarrow> string \<Rightarrow> yaml option" where
  "entry_field e k =
     (if k = ''idf_version'' then Some (YStr (idf_version e))
      else if k = ''idf_version_docker'' then Some (YStr (idf_version_docker e))
      else if k = ''idf_version_file'' then Some (YStr (idf_version_file e))
      else if k = ''build_type'' then Some (build_type e)
      else if k = ''app_name'' then Some (YStr (app_name e))
      else if k = ''target'' then Some (target e)
      else if k = ''config_source'' then Some (YStr (config_source e))
      else None)"

definition entry_fields :: "string list" where
  "entry_fields =
     [''idf_version'', ''idf_version_docker'', ''idf_version_file'', ''build_type'',
      ''app_name'', ''target'', ''config_source'']"

definition default_build_types :: yaml where
  "default_build_types = YList [YStr ''Debug'', YStr ''Release'']"

subsection \<open>The version table (lines 176 to 182)\<close>

text \<open>\<^verbatim>\<open>idf_to_build_types\<close> is a dict keyed by the version values. It is kept as a list
  of bindings, the latest first; a lookup takes the first binding whose key is equal.\<close>

fun dict_lookup :: "(yaml \<times> yaml) list \<Rightarrow> yaml \<Rightarrow> yaml option" where
  "dict_lookup [] k = None"
| "dict_lookup ((k', v) # d) k = (if py_eq k' k then Some v else dict_lookup d k)"

fun build_idf_map ::
  "yaml \<Rightarrow> nat \<Rightarrow> yaml list \<Rightarrow> (yaml \<times> yaml) list \<Rightarrow> py_error + (yaml \<times> yaml) list" where
  "build_idf_map gbt i [] d = Inr d"
| "build_idf_map gbt i (v # vs) d =
     py_bind (py_len gbt) (\<lambda>n.
     py_bind (if i < n then py_index gbt i else Inr default_build_types) (\<lambda>bts.
     if hashable v then build_idf_map gbt (Suc i) vs ((v, bts) # d) else Inl TypeError))"

subsection \<open>Exclusion rules (lines 187 to 192)\<close>

definition rule_matches :: "(string \<times> yaml) list \<Rightarrow> MatrixEntry \<Rightarrow> bool" where
  "rule_matches exc e =
     list_all (\<lambda>(k, v). case map_of (entry_items e) k of None \<Rightarrow> False | Some x \<Rightarrow> py_eq x v) exc"

fun is_excluded_loop :: "yaml list \<Rightarrow> MatrixEntry \<Rightarrow> py_error + bool" where
  "is_excluded_loop [] e = Inr False"
| "is_excluded_loop (exc # rest) e =
     py_bind (py_items exc) (\<lambda>items.
     if rule_matches items e then Inr True else is_excluded_loop rest e)"

definition is_excluded :: "yaml \<Rightarrow> MatrixEntry \<Rightarrow> py_error + bool" where
  "is_excluded exclude_combinations e =
     py_bind (py_iter exclude_combinations) (\<lambda>excs. is_excluded_loop excs e)"

subsection \<open>Build types of one version (lines 206 to 229)\<close>

text \<open>One pass of the loop over the app's versions: the build types paired with the
  version at position \<open>i\<close>. \<open>ac\<close> is the app's mapping, \<open>d\<close> the version table.\<close>

definition version_build_types ::
  "(yaml \<times> yaml) list \<Rightarrow> (string \<times> yaml) list \<Rightarrow> nat \<Rightarrow> yaml \<Rightarrow> py_error + yaml list" where
  "version_build_types d ac i v =
     (case map_of ac ''build_types'' of
        Some app_build_types \<Rightarrow>
          py_bind (py_index app_build_types 0) (\<lambda>first.
          if isinstance_list first then
            py_bind (py_len app_build_types) (\<lambda>n.
            if i < n then py_bind (py_index app_build_types i) py_iter
            else py_iter default_build_types)
          else py_iter app_build_types)
      | None \<Rightarrow>
          if hashable v
          then py_iter (case dict_lookup d v of None \<Rightarrow> default_build_types | Some b \<Rightarrow> b)
          else Inl TypeError)"

fun effective_combinations ::
  "(yaml \<times> yaml) list \<Rightarrow> (string \<times> yaml) list \<Rightarrow> nat \<Rightarrow> yaml list \<Rightarrow>
   py_error + (yaml \<times> yaml) list" where
  "effective_combinations d ac i [] = Inr []"
| "effective_combinations d ac i (v # vs) =
     py_bind (version_build_types d ac i v) (\<lambda>bts.
     py_bind (effective_combinations d ac (Suc i) vs) (\<lambda>rest.
     Inr (map (Pair v) bts @ rest)))"

subsection \<open>Entries of one app (lines 232 to 247)\<close>

definition docker_safe_version :: "string \<Rightarrow> string" where
  "docker_safe_version v = str_replace (CHR ''/'') (CHR ''-'') v"

definition file_safe_version :: "string \<Rightarrow> string" where
  "file_safe_version v = str_replace (CHR ''.'') (CHR ''_'') (str_replace (CHR ''/'') (CHR ''_'') v)"

definition candidate ::
  "yaml \<Rightarrow> string \<Rightarrow> (string \<times> yaml) list \<Rightarrow> string \<Rightarrow> yaml \<Rightarrow> MatrixEntry" where
  "candidate tgt name ac v bt =
     \<lparr> idf_version = v,
       idf_version_docker = docker_safe_version v,
       idf_version_file = file_safe_version v,
       build_type = bt,
       app_name = name,
       target = tgt,
       config_source =
         (if ''build_types'' \<in> set (map fst ac) \<or> ''idf_versions'' \<in> set (map fst ac)
          then ''app'' else ''global'') \<rparr>"

fun app_entries ::
  "yaml \<Rightarrow> yaml \<Rightarrow> string \<Rightarrow> (string \<times> yaml) list \<Rightarrow> (yaml \<times> yaml) list \<Rightarrow>
   py_error + MatrixEntry list" where
  "app_entries excs tgt name ac [] = Inr []"
| "app_entries excs tgt name ac ((v, bt) # rest) =
     (case v of
        YStr s \<Rightarrow>
          py_bind (is_excluded excs (candidate tgt name ac s bt)) (\<lambda>ex.
          py_bind (app_entries excs tgt name ac rest) (\<lambda>es.
          Inr (if ex then es else candidate tgt name ac s bt # es)))
      | _ \<Rightarrow> Inl AttributeError)"

subsection \<open>The loop over the apps (lines 196 to 247)\<close>

text \<open>What one app adds to \<^verbatim>\<open>include\<close>. \<open>giv\<close> is the global version list.\<close>

definition process_app ::
  "(yaml \<times> yaml) list \<Rightarrow> yaml \<Rightarrow> yaml \<Rightarrow> yaml \<Rightarrow> string \<Rightarrow> yaml \<Rightarrow> py_error + MatrixEntry list" where
  "process_app d excs tgt giv name app_config =
     py_bind (py_get app_config ''ci_enabled'' (YBool True)) (\<lambda>ci.
     if \<not> py_truthy ci then Inr []
     else
       (case app_config of
          YMap ac \<Rightarrow>
            py_bind (py_iter (lookup_default ac ''idf_versions'' giv)) (\<lambda>vs.
            py_bind (effective_combinations d ac 0 vs) (\<lambda>combos.
            app_entries excs tgt name ac combos))
        | _ \<Rightarrow> Inl AttributeError))"

fun apps_loop ::
  "(yaml \<times> yaml) list \<Rightarrow> yaml \<Rightarrow> yaml \<Rightarrow> yaml \<Rightarrow> (string \<times> yaml) list \<Rightarrow>
   py_error + MatrixEntry list" where
  "apps_loop d excs tgt giv [] = Inr []"
| "apps_loop d excs tgt giv ((name, app_config) # rest) =
     py_bind (process_app d excs tgt giv name app_config) (\<lambda>es.
     py_bind (apps_loop d excs tgt giv rest) (\<lambda>more.
     Inr (es @ more)))"

text \<open>Line 185: the rule list, with an absent, null or empty one read as no rule.\<close>

definition exclude_combinations :: "yaml \<Rightarrow> py_error + yaml" where
  "exclude_combinations config =
     py_bind (py_get config ''ci_config'' (YMap [])) (\<lambda>ci_config.
     py_bind (py_get ci_config ''exclude_combinations'' (YList [])) (\<lambda>ex.
     Inr (if py_truthy ex then ex else YList [])))"

text \<open>\<^verbatim>\<open>generate_matrix\<close> on the loaded document; the result is the \<^verbatim>\<open>include\<close> list.\<close>

definition generate_matrix :: "yaml \<Rightarrow> py_error + MatrixEntry list" where
  "generate_matrix config =
     py_bind (py_getitem config ''metadata'') (\<lambda>metadata.
     py_bind (py_get metadata ''idf_versions'' (YList [YStr ''release/v5.5''])) (\<lambda>giv.
     py_bind (py_get metadata ''build_types'' (YList [default_build_types])) (\<lambda>gbt.
     py_bind (py_iter giv) (\<lambda>vs.
     py_bind (build_idf_map gbt 0 vs []) (\<lambda>d.
     py_bind (exclude_combinations config) (\<lambda>excs.
     py_bind (py_getitem config ''apps'') (\<lambda>apps.
     py_bind (py_items apps) (\<lambda>items.
     py_bind (py_get metadata ''target'' (YStr ''esp32c6'')) (\<lambda>tgt.
     apps_loop d excs tgt giv items)))))))))"

section \<open>The validator (lines 251 to 319)\<close>

text \<open>The decimal digits of an index, for the messages that print one.\<close>

function str_of_nat :: "nat \<Rightarrow> string" where
  "str_of_nat n =
     (if n < 10 then [''0123456789'' ! n]
      else str_of_nat (n div 10) @ [''0123456789'' ! (n mod 10)])"
  by pat_completeness auto
termination
  by (relation "measure id") auto

declare str_of_nat.simps [simp del]

definition squote :: string where
  "squote = [CHR 0x27]"

definition app_msg :: "string \<Rightarrow> string \<Rightarrow> string" where
  "app_msg name rest = ''App '' @ squote @ name @ squote @ '' '' @ rest"

definition no_metadata_field :: "string \<Rightarrow> string" where
  "no_metadata_field k = ''No '' @ squote @ k @ squote @ '' specified in metadata, using default''"

definition missing_section :: "string \<Rightarrow> string" where
  "missing_section k = ''Missing required '' @ squote @ k @ squote @ '' section''"

text \<open>Lines 267 to 272.\<close>

definition metadata_warnings :: "yaml \<Rightarrow> py_error + string list" where
  "metadata_warnings metadata =
     py_bind (py_contains ''idf_versions'' metadata) (\<lambda>has_v.
     py_bind (py_contains ''build_types'' metadata) (\<lambda>has_b.
     py_bind (py_contains ''target'' metadata) (\<lambda>has_t.
     Inr ((if has_v then [] else [no_metadata_field ''idf_versions'']) @
          (if has_b then [] else [no_metadata_field ''build_types'']) @
          (if has_t then [] else [no_metadata_field ''target''])))))"

text \<open>Lines 291 to 295: the nested format, element by element.\<close>

fun nested_errors :: "string \<Rightarrow> nat \<Rightarrow> yaml list \<Rightarrow> string list" where
  "nested_errors name i [] = []"
| "nested_errors name i (x # xs) =
     (case x of
        YList bt_list \<Rightarrow>
          (if list_all isinstance_str bt_list then []
           else [app_msg name (''build_types['' @ str_of_nat i @ ''] contains non-string values'')])
      | _ \<Rightarrow> [app_msg name (''build_types['' @ str_of_nat i @ ''] is not a list'')])
     @ nested_errors name (Suc i) xs"

text \<open>Lines 287 to 301.\<close>

definition build_types_errors :: "string \<Rightarrow> yaml \<Rightarrow> string list" where
  "build_types_errors name build_types =
     (case build_types of
        YList xs \<Rightarrow>
          (if (case xs of [] \<Rightarrow> False | x # _ \<Rightarrow> isinstance_list x)
           then nested_errors name 0 xs
           else if list_all isinstance_str xs then []
           else [app_msg name ''build_types contains non-string values''])
      | _ \<Rightarrow> [app_msg name ''build_types is not a list''])"

text \<open>Lines 305 to 309.\<close>

definition idf_versions_errors :: "string \<Rightarrow> yaml \<Rightarrow> string list" where
  "idf_versions_errors name idf_versions =
     (case idf_versions of
        YList xs \<Rightarrow>
          (if list_all isinstance_str xs then []
           else [app_msg name ''idf_versions contains non-string values''])
      | _ \<Rightarrow> [app_msg name ''idf_versions is not a list''])"

text \<open>Lines 280 to 309 for one app: the errors and the warnings it adds.\<close>

definition validate_app_entry :: "string \<Rightarrow> yaml \<Rightarrow> py_error + string list \<times> string list" where
  "validate_app_entry name app_config =
     py_bind (py_contains ''description'' app_config) (\<lambda>has_d.
     py_bind (py_contains ''source_file'' app_config) (\<lambda>has_s.
     py_bind (py_contains ''build_types'' app_config) (\<lambda>has_b.
     py_bind (if has_b
              then py_bind (py_getitem app_config ''build_types'')
                     (\<lambda>bt. Inr (build_types_errors name bt))
              else Inr []) (\<lambda>e1.
     py_bind (py_contains ''idf_versions'' app_config) (\<lambda>has_v.
     py_bind (if has_v
              then py_bind (py_getitem app_config ''idf_versions'')
                     (\<lambda>vs. Inr (idf_versions_errors name vs))
              else Inr []) (\<lambda>e2.
     Inr (e1 @ e2,
          (if has_d then [] else [app_msg name ''missing description'']) @
          (if has_s then [] else [app_msg name ''missing source_file'']))))))))"

fun validate_apps :: "(string \<times> yaml) list \<Rightarrow> py_error + string list \<times> string list" where
  "validate_apps [] = Inr ([], [])"
| "validate_apps ((name, app_config) # rest) =
     py_bind (validate_app_entry name app_config) (\<lambda>(e, w).
     py_bind (validate_apps rest) (\<lambda>(es, ws).
     Inr (e @ es, w @ ws)))"

text \<open>Lines 312 to 317.\<close>

definition ci_config_errors :: "yaml \<Rightarrow> py_error + string list" where
  "ci_config_errors config =
     py_bind (py_contains ''ci_config'' config) (\<lambda>has_ci.
     if has_ci then
       py_bind (py_getitem config ''ci_config'') (\<lambda>ci_config.
       py_bind (py_contains ''exclude_combinations'' ci_config) (\<lambda>has_ex.
       if has_ex then
         py_bind (py_getitem ci_config ''exclude_combinations'') (\<lambda>excludes.
         Inr (if py_truthy excludes \<and> \<not> isinstance_list excludes
              then [''ci_config.exclude_combinations is not a list''] else []))
       else Inr []))
     else Inr [])"

text \<open>The result is the triple \<open>(ok, errors, warnings)\<close>.\<close>

definition validate_config :: "yaml \<Rightarrow> py_error + bool \<times> string list \<times> string list" where
  "validate_config config =
     py_bind (py_contains ''metadata'' config) (\<lambda>has_m.
     py_bind (py_contains ''apps'' config) (\<lambda>has_a.
     if \<not> has_m \<or> \<not> has_a
     then Inr (False,
               (if has_m then [] else [missing_section ''metadata'']) @
               (if has_a then [] else [missing_section ''apps'']), [])
     else
       py_bind (py_getitem config ''metadata'') (\<lambda>metadata.
       py_bind (metadata_warnings metadata) (\<lambda>w0.
       py_bind (py_getitem config ''apps'') (\<lambda>apps.
       py_bind (if \<not> py_truthy apps then Inr ([''No apps defined in configuration''], [])
                else py_bind (py_items apps) validate_apps) (\<lambda>(e1, w1).
       py_bind (ci_config_errors config) (\<lambda>e2.
       Inr (e1 @ e2 = [], e1 @ e2, w0 @ w1))))))))"

section \<open>The lookups (get\_app\_info.py, lines 144 to 163)\<close>

definition get_app_source_file :: "string \<Rightarrow> yaml \<Rightarrow> py_error + yaml" where
  "get_app_source_file app_type config =
     py_bind (py_getitem config ''apps'') (\<lambda>apps.
     py_bind (py_contains app_type apps) (\<lambda>found.
     if \<not> found then Inl (SystemExit 1 (''Error: Unknown app type: '' @ app_type))
     else py_bind (py_getitem apps app_type) (\<lambda>app. py_getitem app ''source_file'')))"

definition list_apps :: "yaml \<Rightarrow> py_error + string list" where
  "list_apps config =
     py_bind (py_getitem config ''apps'') (\<lambda>apps.
     py_bind (py_items apps) (\<lambda>items. Inr (map fst items)))"

definition validate_app :: "string \<Rightarrow> yaml \<Rightarrow> py_error + bool" where
  "validate_app app_type config =
     py_bind (py_getitem config ''apps'') (py_contains app_type)"

section \<open>Reference definitions for the validator's warnings\<close>

text \<open>A key the membership test finds absent.\<close>

definition absent :: "string \<Rightarrow> yaml \<Rightarrow> bool" where
  "absent k x = (py_contains k x = Inr False)"

definition app_warnings :: "string \<Rightarrow> yaml \<Rightarrow> string list" where
  "app_warnings name app_config =
     (if absent ''description'' app_config then [app_msg name ''missing description''] else []) @
     (if absent ''source_file'' app_config then [app_msg name ''missing source_file''] else [])"

text \<open>Every warning the checks can produce for a document: one for each of the three
  optional fields the metadata section lacks, then, app by app in the order of the document,
  one for a missing description and one for a missing source file.\<close>

definition warnings_of_checks :: "yaml \<Rightarrow> string list" where
  "warnings_of_checks config =
     (case config of
        YMap c \<Rightarrow>
          (case map_of c ''metadata'' of
             Some metadata \<Rightarrow>
               concat (map (\<lambda>k. if absent k metadata then [no_metadata_field k] else [])
                         [''idf_versions'', ''build_types'', ''target''])
           | None \<Rightarrow> []) @
          (case map_of c ''apps'' of
             Some (YMap apps) \<Rightarrow> concat (map (\<lambda>(name, app_config). app_warnings name app_config) apps)
           | _ \<Rightarrow> [])
      | _ \<Rightarrow> [])"

text \<open>The shape of a document as the external interface describes it: \<open>metadata\<close> an
  object, \<open>apps\<close> an object of named app objects, \<open>ci_config\<close>, when present, an object.\<close>

definition is_mapping :: "yaml \<Rightarrow> bool" where
  "is_mapping x = (case x of YMap _ \<Rightarrow> True | _ \<Rightarrow> False)"

definition document_shape :: "(string \<times> yaml) list \<Rightarrow> bool" where
  "document_shape c =
     ((case map_of c ''metadata'' of Some (YMap _) \<Rightarrow> True | _ \<Rightarrow> False) \<and>
      (case map_of c ''apps'' of
         Some (YMap apps) \<Rightarrow> list_all (\<lambda>(name, app_config). is_mapping app_config) apps
       | _ \<Rightarrow> False) \<and>
      (case map_of c ''ci_config'' of None \<Rightarrow> True | Some ci \<Rightarrow> is_mapping ci))"

section \<open>Example documents\<close>

text \<open>One app that declares \<^verbatim>\<open>build_types: []\<close>, with everything else in order.\<close>

definition cfg_empty_build_types :: yaml where
  "cfg_empty_build_types =
     YMap [(''metadata'', YMap [(''idf_versions'', YList [YStr ''release/v5.5'']),
                               (''build_types'', YList [YList [YStr ''Debug'', YStr ''Release'']]),
                               (''target'', YStr ''esp32c6'')]),
           (''apps'', YMap [(''gpio_test'',
                            YMap [(''description'', YStr ''GPIO test''),
                                  (''source_file'', YStr ''GpioTest.cpp''),
                                  (''build_types'', YList [])])])]"

text \<open>Two apps with their source files, for the lookups.\<close>

definition two_apps :: "(string \<times> yaml) list" where
  "two_apps =
     [(''gpio_test'', YMap [(''description'', YStr ''GPIO test''),
                           (''source_file'', YStr ''GpioTest.cpp'')]),
      (''adc_test'', YMap [(''description'', YStr ''ADC test''),
                          (''source_file'', YStr ''AdcTest.cpp'')])]"

definition full_metadata :: yaml where
  "full_metadata =
     YMap [(''idf_versions'', YList [YStr ''release/v5.5'']),
           (''build_types'', YList [YList [YStr ''Debug'', YStr ''Release'']]),
           (''target'', YStr ''esp32c6'')]"

definition cfg_two_apps :: "(string \<times> yaml) list" where
  "cfg_two_apps = [(''metadata'', full_metadata), (''apps'', YMap two_apps)]"

text \<open>The same with \<^verbatim>\<open>ci_config.exclude_combinations\<close> set to the value \<open>x\<close>.\<close>

definition cfg_excludes :: "yaml \<Rightarrow> (string \<times> yaml) list" where
  "cfg_excludes x =
     [(''metadata'', full_metadata), (''apps'', YMap two_apps),
      (''ci_config'', YMap [(''exclude_combinations'', x)])]"

text \<open>A document with an empty metadata section and no apps section.\<close>

definition cfg_no_apps :: yaml where
  "cfg_no_apps = YMap [(''metadata'', YMap [])]"

text \<open>One app without description and source file, under a metadata section without target.\<close>

definition cfg_warnings :: "(string \<times> yaml) list" where
  "cfg_warnings =
     [(''metadata'', YMap [(''idf_versions'', YList [YStr ''release/v5.5'']),
                          (''build_types'', YList [YList [YStr ''Debug'']])]),
      (''apps'', YMap [(''gpio_test'', YMap [(''ci_enabled'', YBool True)])])]"

text \<open>The rule \<^verbatim>\<open>{app_name: "x", build_type: "Debug"}\<close>, a rule naming a field no candidate
  has, and two candidates of the app \<open>x\<close> that differ in the version only.\<close>

definition rule_x_debug :: "(string \<times> yaml) list" where
  "rule_x_debug = [(''app_name'', YStr ''x''), (''build_type'', YStr ''Debug'')]"

definition rule_unknown_field :: "(string \<times> yaml) list" where
  "rule_unknown_field = [(''chip'', YStr ''esp32c6'')]"

definition entry_x_55 :: MatrixEntry where
  "entry_x_55 = candidate (YStr ''esp32c6'') ''x'' [] ''release/v5.5'' (YStr ''Debug'')"

definition entry_x_54 :: MatrixEntry where
  "entry_x_54 = candidate (YStr ''esp32c6'') ''x'' [] ''release/v5.4'' (YStr ''Debug'')"

text \<open>An app with two versions of its own and the flat list \<^verbatim>\<open>["Debug", "Release"]\<close>,
  and one with the nested list \<^verbatim>\<open>[["Release"]]\<close>, shorter than its version list.\<close>

definition app_flat :: "(string \<times> yaml) list" where
  "app_flat =
     [(''idf_versions'', YList (map YStr [''release/v5.4'', ''release/v5.5''])),
      (''build_types'', YList [YStr ''Debug'', YStr ''Release''])]"

definition app_nested :: "(string \<times> yaml) list" where
  "app_nested =
     [(''idf_versions'', YList (map YStr [''release/v5.4'', ''release/v5.5''])),
      (''build_types'', YList (map YList [[YStr ''Release'']]))]"

text \<open>One app without overrides and one with both, under the full metadata section.\<close>

definition mixed_apps :: "(string \<times> yaml) list" where
  "mixed_apps = [(''gpio_test'', YMap []), (''adc_test'', YMap app_flat)]"

definition cfg_mixed :: "(string \<times> yaml) list" where
  "cfg_mixed = [(''metadata'', full_metadata), (''apps'', YMap mixed_apps)]"

text \<open>An app with two versions of its own and the flat list \<^verbatim>\<open>[]\<close> of build types.\<close>

definition app_flat_empty :: "(string \<times> yaml) list" where
  "app_flat_empty =
     [(''description'', YStr ''GPIO test''),
      (''source_file'', YStr ''GpioTest.cpp''),
      (''idf_versions'', YList (map YStr [''release/v5.4'', ''release/v5.5''])),
      (''build_types'', YList [])]"

definition cfg_flat_empty :: "(string \<times> yaml) list" where
  "cfg_flat_empty =
     [(''metadata'', full_metadata), (''apps'', YMap [(''gpio_test'', YMap app_flat_empty)])]"

section \<open>Version sanitization\<close>






section \<open>The empty build-type list\<close>

text \<open>The validator accepts an app that declares \<^verbatim>\<open>build_types: []\<close>: its shape
  test at line 289 asks first whether the list is empty.\<close>

lemma validate_config_empty_build_types:
  "validate_config cfg_empty_build_types = Inr (True, [], [])"
  by code_simp

text \<open>
  Claim C1 at an app that declares \<^verbatim>\<open>build_types: []\<close>, in a document the validator
  accepts without an error or a warning: the generator ends with IndexError at the shape
  test \<^verbatim>\<open>app_build_types[0]\<close> of line 211, instead of adding no entry for the app.
\<close>

theorem generate_matrix_empty_build_types:
  "generate_matrix cfg_empty_build_types = Inl IndexError"
  by code_simp

section \<open>The source-file lookup\<close>

text \<open>
  Claim C9: with \<open>apps\<close> the mapping under the key \<^verbatim>\<open>apps\<close>, the lookup of a name bound
  there to an app with a \<^verbatim>\<open>source_file\<close> returns that value, and the lookup of a name
  that is no key of \<open>apps\<close> ends the run with exit status 1 after the line
  \<^verbatim>\<open>Error: Unknown app type: <name>\<close>, returning nothing.
\<close>

theorem get_app_source_file_lookup:
  assumes "map_of c ''apps'' = Some (YMap apps)"
  shows "(map_of apps name = Some (YMap ac) \<longrightarrow> map_of ac ''source_file'' = Some v \<longrightarrow>
            get_app_source_file name (YMap c) = Inr v) \<and>
         (name \<notin> set (map fst apps) \<longrightarrow>
            get_app_source_file name (YMap c) =
              Inl (SystemExit 1 (''Error: Unknown app type: '' @ name)))"
  using assms
  by (auto simp: get_app_source_file_def py_bind_def py_getitem_def py_contains_def
       dest: map_of_SomeD intro: rev_image_eqI)

theorem get_app_source_file_lookup_witness:
  "map_of cfg_two_apps ''apps'' = Some (YMap two_apps) \<and>
   get_app_source_file ''adc_test'' (YMap cfg_two_apps) = Inr (YStr ''AdcTest.cpp'') \<and>
   ''i2c_test'' \<notin> set (map fst two_apps) \<and>
   get_app_source_file ''i2c_test'' (YMap cfg_two_apps) =
     Inl (SystemExit 1 ''Error: Unknown app type: i2c_test'')"
proof -
  have a: "map_of cfg_two_apps ''apps'' = Some (YMap two_apps)"
    by (simp add: cfg_two_apps_def)
  have b: "map_of two_apps ''adc_test'' =
      Some (YMap [(''description'', YStr ''ADC test''), (''source_file'', YStr ''AdcTest.cpp'')])"
    by (simp add: two_apps_def)
  have c: "map_of [(''description'', YStr ''ADC test''), (''source_file'', YStr ''AdcTest.cpp'')]
      ''source_file'' = Some (YStr ''AdcTest.cpp'')"
    by simp
  have d: "''i2c_test'' \<notin> set (map fst two_apps)"
    by (simp add: two_apps_def)
  note p = get_app_source_file_lookup [OF a, THEN conjunct1, rule_format, OF b c]
  note q = get_app_source_file_lookup [OF a, THEN conjunct2, rule_format, OF d]
  from a d p q show ?thesis by simp
qed

section \<open>The validator\<close>

text \<open>Every error of the per-app checks starts with \<open>App\<close>.\<close>

lemma nested_errors_app: "m \<in> set (nested_errors name i xs) \<Longrightarrow> take 4 m = ''App ''"
  by (induction xs arbitrary: i) (auto simp: app_msg_def split: yaml.splits if_splits)

lemma build_types_errors_app: "m \<in> set (build_types_errors name bt) \<Longrightarrow> take 4 m = ''App ''"
  by (auto simp: build_types_errors_def app_msg_def dest: nested_errors_app split: yaml.splits if_splits)

lemma idf_versions_errors_app: "m \<in> set (idf_versions_errors name bt) \<Longrightarrow> take 4 m = ''App ''"
  by (auto simp: idf_versions_errors_def app_msg_def split: yaml.splits if_splits)

lemma validate_app_entry_app:
  "validate_app_entry name ac = Inr (e, w) \<Longrightarrow> m \<in> set e \<Longrightarrow> take 4 m = ''App ''"
  by (auto simp: validate_app_entry_def py_bind_def
       dest: build_types_errors_app idf_versions_errors_app split: sum.splits if_splits)

lemma validate_apps_app:
  "validate_apps items = Inr (e, w) \<Longrightarrow> m \<in> set e \<Longrightarrow> take 4 m = ''App ''"
proof (induction items arbitrary: e w)
  case Nil
  then show ?case by simp
next
  case (Cons a items)
  then show ?case
    by (cases a) (auto simp: py_bind_def dest: validate_app_entry_app split: sum.splits prod.splits)
qed

lemma ci_config_errors_value:
  assumes "map_of c ''ci_config'' = Some (YMap ci)"
      and "map_of ci ''exclude_combinations'' = Some x"
  shows "ci_config_errors (YMap c) =
           Inr (if py_truthy x \<and> \<not> isinstance_list x
                then [''ci_config.exclude_combinations is not a list''] else [])"
proof -
  from assms(1) have "''ci_config'' \<in> set (map fst c)"
    by (metis map_of_eq_None_iff option.distinct(1) set_map)
  moreover from assms(2) have "''exclude_combinations'' \<in> set (map fst ci)"
    by (metis map_of_eq_None_iff option.distinct(1) set_map)
  ultimately show ?thesis
    using assms by (simp add: ci_config_errors_def py_bind_def py_contains_def py_getitem_def)
qed

lemma validate_config_returns:
  assumes "validate_config (YMap c) = Inr (ok, errs, warns)"
      and "''metadata'' \<in> set (map fst c)" and "''apps'' \<in> set (map fst c)"
  obtains metadata apps e1 w0 w1 e2 where
    "map_of c ''metadata'' = Some metadata" "map_of c ''apps'' = Some apps"
    "metadata_warnings metadata = Inr w0"
    "(if \<not> py_truthy apps then Inr ([''No apps defined in configuration''], [])
      else py_bind (py_items apps) validate_apps) = Inr (e1, w1)"
    "ci_config_errors (YMap c) = Inr e2"
    "errs = e1 @ e2" "ok = (errs = [])" "warns = w0 @ w1"
  using assms
  by (auto simp: validate_config_def py_bind_def py_contains_def py_getitem_def
      split: sum.splits option.splits prod.splits)

text \<open>
  Claim C4 as stated: a document in which \<^verbatim>\<open>ci_config.exclude_combinations\<close> is present
  with a value that is not a list is rejected. It fails at the value null: the document is
  accepted, with no error.
\<close>

theorem validate_null_excludes_accepted:
  "py_getitem (YMap (cfg_excludes YNull)) ''ci_config'' = Inr (YMap [(''exclude_combinations'', YNull)]) \<and>
   \<not> isinstance_list YNull \<and>
   validate_config (YMap (cfg_excludes YNull)) = Inr (True, [], [])"
  by code_simp

text \<open>
  Claim C4, amended: when both required sections are present and the validator returns, the
  error \<open>ci_config.exclude_combinations is not a list\<close> is reported exactly when the value
  under that key is true in Python's sense (not null, false, zero or empty) and is not a
  list, and then \<open>ok\<close> is false.
\<close>

theorem validate_exclude_combinations:
  assumes "map_of c ''ci_config'' = Some (YMap ci)"
      and "map_of ci ''exclude_combinations'' = Some x"
      and "''metadata'' \<in> set (map fst c)" and "''apps'' \<in> set (map fst c)"
      and "validate_config (YMap c) = Inr (ok, errs, warns)"
  shows "(''ci_config.exclude_combinations is not a list'' \<in> set errs) =
           (py_truthy x \<and> \<not> isinstance_list x) \<and>
         (py_truthy x \<and> \<not> isinstance_list x \<longrightarrow> \<not> ok)"
proof -
  from assms(5,3,4) obtain metadata apps e1 w0 w1 e2 where
    r: "(if \<not> py_truthy apps then Inr ([''No apps defined in configuration''], [])
      else py_bind (py_items apps) validate_apps) = Inr (e1, w1)"
    and e2: "ci_config_errors (YMap c) = Inr e2"
    and errs: "errs = e1 @ e2" and ok: "ok = (errs = [])"
    by (rule validate_config_returns)
  have e2': "e2 = (if py_truthy x \<and> \<not> isinstance_list x
                then [''ci_config.exclude_combinations is not a list''] else [])"
    using e2 ci_config_errors_value [OF assms(1,2)] by simp
  have "''ci_config.exclude_combinations is not a list'' \<notin> set e1"
  proof
    assume m: "''ci_config.exclude_combinations is not a list'' \<in> set e1"
    show False
    proof (cases "py_truthy apps")
      case False
      with r m show False by auto
    next
      case True
      with r obtain items where "validate_apps items = Inr (e1, w1)"
        by (auto simp: py_bind_def split: sum.splits)
      from validate_apps_app [OF this m] show False by simp
    qed
  qed
  with errs e2' ok show ?thesis by auto
qed

theorem validate_exclude_combinations_witness:
  "validate_config (YMap (cfg_excludes (YStr ''none''))) =
     Inr (False, [''ci_config.exclude_combinations is not a list''], []) \<and>
   py_truthy (YStr ''none'') \<and> \<not> isinstance_list (YStr ''none'')"
proof -
  have a: "map_of (cfg_excludes (YStr ''none'')) ''ci_config'' =
      Some (YMap [(''exclude_combinations'', YStr ''none'')])"
    by (simp add: cfg_excludes_def)
  have b: "map_of [(''exclude_combinations'', YStr ''none'')] ''exclude_combinations'' =
      Some (YStr ''none'')" by simp
  have c: "''metadata'' \<in> set (map fst (cfg_excludes (YStr ''none'')))"
    by (simp add: cfg_excludes_def)
  have d: "''apps'' \<in> set (map fst (cfg_excludes (YStr ''none'')))"
    by (simp add: cfg_excludes_def)
  have e: "validate_config (YMap (cfg_excludes (YStr ''none''))) =
     Inr (False, [''ci_config.exclude_combinations is not a list''], [])"
    by code_simp
  have f: "py_truthy (YStr ''none'') \<and> \<not> isinstance_list (YStr ''none'')"
    by (simp add: isinstance_list_def)
  from validate_exclude_combinations [OF a b c d e] e f show ?thesis by simp
qed

subsection \<open>Warnings\<close>

lemma metadata_warnings_all:
  "metadata_warnings metadata = Inr w0 \<Longrightarrow>
   w0 = concat (map (\<lambda>k. if absent k metadata then [no_metadata_field k] else [])
                         [''idf_versions'', ''build_types'', ''target''])"
  by (auto simp: metadata_warnings_def py_bind_def absent_def split: sum.splits)

lemma validate_app_entry_warnings:
  "validate_app_entry name app_config = Inr (e, w) \<Longrightarrow> w = app_warnings name app_config"
  by (auto simp: validate_app_entry_def py_bind_def absent_def app_warnings_def split: sum.splits)

lemma validate_apps_warnings:
  "validate_apps items = Inr (e, w) \<Longrightarrow>
   w = concat (map (\<lambda>(name, app_config). app_warnings name app_config) items)"
proof (induction items arbitrary: e w)
  case Nil
  then show ?case by simp
next
  case (Cons a items)
  obtain name app_config where a: "a = (name, app_config)" by (cases a)
  from Cons.prems obtain e1 w1 e2 w2 where
    1: "validate_app_entry name app_config = Inr (e1, w1)" and
    2: "validate_apps items = Inr (e2, w2)" and 3: "w = w1 @ w2"
    by (auto simp: a py_bind_def split: sum.splits prod.splits)
  from validate_app_entry_warnings [OF 1] Cons.IH [OF 2] 3 a show ?case by simp
qed

lemma key_map_of: "k \<in> set (map fst m) \<Longrightarrow> \<exists>v. map_of m k = Some v"
  by (metis map_of_eq_None_iff not_Some_eq set_map)

lemma py_getitem_present:
  "k \<in> set (map fst m) \<Longrightarrow> \<exists>v. py_getitem (YMap m) k = Inr v"
  using key_map_of [of k m] by (auto simp: py_getitem_def)

lemma py_contains_mapping: "py_contains k (YMap m) = Inr (map_of m k \<noteq> None)"
  by (simp add: py_contains_def map_of_eq_None_iff)

lemma validate_app_entry_mapping:
  "\<exists>e w. validate_app_entry name (YMap ac) = Inr (e, w)"
  by (simp add: validate_app_entry_def py_bind_def py_contains_mapping py_getitem_def
      split: option.splits)

lemma validate_apps_mappings:
  "list_all (\<lambda>(name, app_config). is_mapping app_config) items \<Longrightarrow>
   \<exists>e w. validate_apps items = Inr (e, w)"
proof (induction items)
  case Nil
  then show ?case by simp
next
  case (Cons a items)
  obtain name app_config where a: "a = (name, app_config)" by (cases a)
  with Cons.prems obtain ac where ac: "app_config = YMap ac"
    by (auto simp: is_mapping_def split: yaml.splits)
  from validate_app_entry_mapping [of name ac] obtain e1 w1 where
    1: "validate_app_entry name (YMap ac) = Inr (e1, w1)" by blast
  from Cons obtain e2 w2 where 2: "validate_apps items = Inr (e2, w2)" by auto
  from 1 2 a ac show ?case by (simp add: py_bind_def)
qed

lemma metadata_warnings_mapping: "\<exists>w. metadata_warnings (YMap m) = Inr w"
  by (simp add: metadata_warnings_def py_bind_def py_contains_def)

lemma ci_config_errors_mapping:
  "(case map_of c ''ci_config'' of None \<Rightarrow> True | Some ci \<Rightarrow> is_mapping ci) \<Longrightarrow>
   \<exists>e. ci_config_errors (YMap c) = Inr e"
  by (auto simp: ci_config_errors_def py_bind_def py_contains_mapping py_getitem_def is_mapping_def
      split: option.splits yaml.splits)

lemma validate_config_shape_returns:
  assumes "document_shape c"
  shows "\<exists>ok errs warns. validate_config (YMap c) = Inr (ok, errs, warns)"
proof -
  from assms obtain m where m: "map_of c ''metadata'' = Some (YMap m)"
    by (auto simp: document_shape_def split: option.splits yaml.splits)
  from assms obtain apps where apps: "map_of c ''apps'' = Some (YMap apps)"
    and all: "list_all (\<lambda>(name, app_config). is_mapping app_config) apps"
    by (auto simp: document_shape_def split: option.splits yaml.splits)
  from assms have ci: "case map_of c ''ci_config'' of None \<Rightarrow> True | Some ci \<Rightarrow> is_mapping ci"
    by (simp add: document_shape_def)
  from m have km: "''metadata'' \<in> set (map fst c)"
    by (metis map_of_eq_None_iff option.distinct(1) set_map)
  from apps have ka: "''apps'' \<in> set (map fst c)"
    by (metis map_of_eq_None_iff option.distinct(1) set_map)
  obtain w0 where w0: "metadata_warnings (YMap m) = Inr w0"
    using metadata_warnings_mapping by blast
  obtain e1 w1 where r: "validate_apps apps = Inr (e1, w1)"
    using validate_apps_mappings [OF all] by blast
  obtain e2 where e2: "ci_config_errors (YMap c) = Inr e2"
    using ci_config_errors_mapping [OF ci] by blast
  show ?thesis
  proof (cases "apps = []")
    case True
    with m apps km ka w0 e2 show ?thesis
      by (auto simp: validate_config_def py_bind_def py_contains_def py_getitem_def)
  next
    case False
    with m apps km ka w0 r e2 show ?thesis
      by (simp add: validate_config_def py_bind_def py_contains_def py_getitem_def py_items_def)
  qed
qed

lemma validate_early_return:
  assumes "py_contains ''metadata'' config = Inr has_m"
      and "py_contains ''apps'' config = Inr has_a" and "\<not> (has_m \<and> has_a)"
  shows "validate_config config =
           Inr (False,
                (if has_m then [] else [missing_section ''metadata'']) @
                (if has_a then [] else [missing_section ''apps'']), [])"
  using assms by (auto simp: validate_config_def py_bind_def)

lemma validate_ok_iff_no_errors:
  assumes "validate_config config = Inr (ok, errs, warns)"
  shows "ok = (errs = [])"
proof -
  from assms obtain has_m has_a where
    m: "py_contains ''metadata'' config = Inr has_m" and
    a: "py_contains ''apps'' config = Inr has_a"
    by (auto simp: validate_config_def py_bind_def split: sum.splits)
  show ?thesis
  proof (cases "has_m \<and> has_a")
    case False
    from validate_early_return [OF m a False] assms False show ?thesis by auto
  next
    case True
    with assms m a show ?thesis
      by (auto simp: validate_config_def py_bind_def split: sum.splits prod.splits)
  qed
qed

text \<open>
  Claim C6 as stated: for every document, every warning the checks can produce for it is
  returned. It fails at a document without an apps section: the validator returns at line
  263 with the section error and no warning, before the metadata checks that would warn of
  the three fields the metadata section lacks.
\<close>

theorem validate_early_return_drops_warnings:
  "validate_config cfg_no_apps = Inr (False, [missing_section ''apps''], []) \<and>
   warnings_of_checks cfg_no_apps =
     [no_metadata_field ''idf_versions'', no_metadata_field ''build_types'',
      no_metadata_field ''target'']"
  by code_simp

text \<open>
  Claim C6, amended. The validator is a function of the document: the source stores nothing
  into \<^verbatim>\<open>config\<close>, and the model has no store. For every document:
  \<^item> on a document of the documented shape the validator returns;
  \<^item> when both required sections are present and it returns, the warnings returned are all
    the warnings of the checks, in their order;
  \<^item> whenever it returns, \<open>ok\<close> holds exactly when there is no error, however many
    warnings there are;
  \<^item> when a required section is missing, it returns at once with \<open>ok\<close> false, the error
    of each missing section and no warning.
\<close>

theorem validate_collects_warnings:
  "(document_shape c \<longrightarrow> (\<exists>ok errs warns. validate_config (YMap c) = Inr (ok, errs, warns))) \<and>
   (''metadata'' \<in> set (map fst c) \<longrightarrow> ''apps'' \<in> set (map fst c) \<longrightarrow>
    validate_config (YMap c) = Inr (ok, errs, warns) \<longrightarrow>
      warns = warnings_of_checks (YMap c) \<and> ok = (errs = [])) \<and>
   (validate_config config = Inr (ok', errs', warns') \<longrightarrow> ok' = (errs' = [])) \<and>
   (py_contains ''metadata'' config = Inr has_m \<longrightarrow> py_contains ''apps'' config = Inr has_a \<longrightarrow>
    \<not> (has_m \<and> has_a) \<longrightarrow>
      validate_config config =
        Inr (False,
             (if has_m then [] else [missing_section ''metadata'']) @
             (if has_a then [] else [missing_section ''apps'']), []))"
proof (intro conjI impI)
  assume "document_shape c"
  then show "\<exists>ok errs warns. validate_config (YMap c) = Inr (ok, errs, warns)"
    by (rule validate_config_shape_returns)
next
  assume "validate_config config = Inr (ok', errs', warns')"
  then show "ok' = (errs' = [])" by (rule validate_ok_iff_no_errors)
next
  assume "py_contains ''metadata'' config = Inr has_m" "py_contains ''apps'' config = Inr has_a"
    "\<not> (has_m \<and> has_a)"
  then show "validate_config config =
        Inr (False,
             (if has_m then [] else [missing_section ''metadata'']) @
             (if has_a then [] else [missing_section ''apps'']), [])"
    by (rule validate_early_return)
next
  assume km: "''metadata'' \<in> set (map fst c)" and ka: "''apps'' \<in> set (map fst c)"
    and v: "validate_config (YMap c) = Inr (ok, errs, warns)"
  from v km ka obtain metadata apps e1 w0 w1 e2 where
    m: "map_of c ''metadata'' = Some metadata" and a: "map_of c ''apps'' = Some apps" and
    w0: "metadata_warnings metadata = Inr w0" and
    r: "(if \<not> py_truthy apps then Inr ([''No apps defined in configuration''], [])
      else py_bind (py_items apps) validate_apps) = Inr (e1, w1)" and
    ok: "ok = (errs = [])" and warns: "warns = w0 @ w1"
    by (rule validate_config_returns)
  have w1: "w1 = (case apps of YMap items \<Rightarrow>
                concat (map (\<lambda>(name, app_config). app_warnings name app_config) items) | _ \<Rightarrow> [])"
  proof (cases "py_truthy apps")
    case False
    with r have "w1 = []" by auto
    with False show ?thesis by (cases apps) auto
  next
    case True
    with r obtain items where "apps = YMap items" "validate_apps items = Inr (e1, w1)"
      by (auto simp: py_bind_def py_items_def split: sum.splits yaml.splits)
    with validate_apps_warnings show ?thesis by simp
  qed
  from metadata_warnings_all [OF w0] w1 m a warns
  have "warns = warnings_of_checks (YMap c)"
    by (simp add: warnings_of_checks_def split: yaml.splits)
  with ok show "warns = warnings_of_checks (YMap c)" and "ok = (errs = [])" by simp_all
qed

theorem validate_collects_warnings_witness:
  "document_shape cfg_warnings \<and>
   ''metadata'' \<in> set (map fst cfg_warnings) \<and> ''apps'' \<in> set (map fst cfg_warnings) \<and>
   validate_config (YMap cfg_warnings) =
     Inr (True, [], [no_metadata_field ''target'', app_msg ''gpio_test'' ''missing description'',
                     app_msg ''gpio_test'' ''missing source_file'']) \<and>
   warnings_of_checks (YMap cfg_warnings) =
     [no_metadata_field ''target'', app_msg ''gpio_test'' ''missing description'',
      app_msg ''gpio_test'' ''missing source_file''] \<and>
   py_contains ''metadata'' cfg_no_apps = Inr True \<and>
   py_contains ''apps'' cfg_no_apps = Inr False \<and>
   validate_config cfg_no_apps = Inr (False, [missing_section ''apps''], [])"
proof -
  have s: "document_shape cfg_warnings" by code_simp
  have km: "''metadata'' \<in> set (map fst cfg_warnings)" by (simp add: cfg_warnings_def)
  have ka: "''apps'' \<in> set (map fst cfg_warnings)" by (simp add: cfg_warnings_def)
  have v: "validate_config (YMap cfg_warnings) =
     Inr (True, [], [no_metadata_field ''target'', app_msg ''gpio_test'' ''missing description'',
                     app_msg ''gpio_test'' ''missing source_file''])"
    by code_simp
  have hm: "py_contains ''metadata'' cfg_no_apps = Inr True"
    by (simp add: cfg_no_apps_def py_contains_def)
  have ha: "py_contains ''apps'' cfg_no_apps = Inr False"
    by (simp add: cfg_no_apps_def py_contains_def)
  have n: "\<not> (True \<and> False)" by simp
  note t = validate_collects_warnings [THEN conjunct2, THEN conjunct1, rule_format, OF km ka v]
  note u = validate_collects_warnings [THEN conjunct2, THEN conjunct2, THEN conjunct2,
      rule_format, OF hm ha n]
  from u have e: "validate_config cfg_no_apps = Inr (False, [missing_section ''apps''], [])"
    by simp
  from t have w: "warnings_of_checks (YMap cfg_warnings) =
     [no_metadata_field ''target'', app_msg ''gpio_test'' ''missing description'',
      app_msg ''gpio_test'' ''missing source_file'']" by simp
  from s km ka v w hm ha e show ?thesis by (intro conjI)
qed

section \<open>Exclusion rules\<close>

lemma entry_items_field: "map_of (entry_items e) k = entry_field e k"
  by (simp add: entry_items_def entry_field_def)

lemma rule_matches_iff:
  "rule_matches exc e = (\<forall>(k, v) \<in> set exc. \<exists>x. entry_field e k = Some x \<and> py_eq x v)"
  by (auto simp: rule_matches_def list_all_iff entry_items_field split: option.splits)

lemma is_excluded_loop_rules:
  "is_excluded_loop (map YMap rules) e = Inr (\<exists>r \<in> set rules. rule_matches r e)"
  by (induction rules) (auto simp: py_bind_def py_items_def)

lemma is_excluded_rules:
  "is_excluded (YList (map YMap rules)) e = Inr (\<exists>r \<in> set rules. rule_matches r e)"
  by (simp add: is_excluded_def py_bind_def py_iter_def is_excluded_loop_rules)

lemma app_entries_rules:
  "app_entries (YList (map YMap rules)) tgt name ac (map (\<lambda>(s, bt). (YStr s, bt)) pairs) =
     Inr (filter (\<lambda>c. \<not> (\<exists>r \<in> set rules. rule_matches r c))
            (map (\<lambda>(s, bt). candidate tgt name ac s bt) pairs))"
  by (induction pairs) (auto simp: py_bind_def is_excluded_rules)

lemma entry_field_unknown: "k \<notin> set entry_fields \<Longrightarrow> entry_field e k = None"
  by (simp add: entry_fields_def entry_field_def)

lemma entry_fields_keys: "map fst (entry_items e) = entry_fields"
  by (simp add: entry_fields_def entry_items_def)

text \<open>
  Claim C7: a rule matches a candidate exactly when every field the rule names is a field of
  the candidate and equal (Python's \<^verbatim>\<open>==\<close>) to the rule's value. So the fields a rule
  omits are wildcards: two candidates that agree on the named fields are matched alike. A
  rule naming a field that no candidate has matches nothing. With a list of rules, a
  candidate is excluded exactly when some rule matches it, and the entries kept for an app
  are its candidates, in order, that no rule matches.
\<close>

theorem exclusion_rule_semantics:
  "(rule_matches exc e = (\<forall>(k, v) \<in> set exc. \<exists>x. entry_field e k = Some x \<and> py_eq x v)) \<and>
   ((\<forall>k \<in> fst ` set exc. entry_field e k = entry_field e' k) \<longrightarrow>
      rule_matches exc e = rule_matches exc e') \<and>
   ((\<exists>k \<in> fst ` set exc. k \<notin> set entry_fields) \<longrightarrow> \<not> rule_matches exc e) \<and>
   is_excluded (YList (map YMap rules)) e = Inr (\<exists>r \<in> set rules. rule_matches r e) \<and>
   app_entries (YList (map YMap rules)) tgt name ac (map (\<lambda>(s, bt). (YStr s, bt)) pairs) =
     Inr (filter (\<lambda>c. \<not> (\<exists>r \<in> set rules. rule_matches r c))
            (map (\<lambda>(s, bt). candidate tgt name ac s bt) pairs))"
proof (intro conjI impI)
  show "rule_matches exc e = (\<forall>(k, v) \<in> set exc. \<exists>x. entry_field e k = Some x \<and> py_eq x v)"
    by (rule rule_matches_iff)
next
  assume "\<forall>k \<in> fst ` set exc. entry_field e k = entry_field e' k"
  then show "rule_matches exc e = rule_matches exc e'"
    unfolding rule_matches_iff by force
next
  assume "\<exists>k \<in> fst ` set exc. k \<notin> set entry_fields"
  then obtain k v where kv: "(k, v) \<in> set exc" and "k \<notin> set entry_fields" by auto
  then have "entry_field e k = None" by (simp add: entry_field_unknown)
  with kv show "\<not> rule_matches exc e" unfolding rule_matches_iff by force
next
  show "is_excluded (YList (map YMap rules)) e = Inr (\<exists>r \<in> set rules. rule_matches r e)"
    by (rule is_excluded_rules)
next
  show "app_entries (YList (map YMap rules)) tgt name ac (map (\<lambda>(s, bt). (YStr s, bt)) pairs) =
     Inr (filter (\<lambda>c. \<not> (\<exists>r \<in> set rules. rule_matches r c))
            (map (\<lambda>(s, bt). candidate tgt name ac s bt) pairs))"
    by (rule app_entries_rules)
qed

theorem exclusion_rule_semantics_witness:
  "rule_matches rule_x_debug entry_x_55 \<and>
   entry_field entry_x_55 ''app_name'' = entry_field entry_x_54 ''app_name'' \<and>
   entry_field entry_x_55 ''build_type'' = entry_field entry_x_54 ''build_type'' \<and>
   rule_matches rule_x_debug entry_x_54 \<and>
   ''chip'' \<notin> set entry_fields \<and>
   \<not> rule_matches rule_unknown_field entry_x_55 \<and>
   is_excluded (YList (map YMap [rule_unknown_field, rule_x_debug])) entry_x_55 = Inr True"
proof -
  note t = exclusion_rule_semantics [of rule_x_debug entry_x_55 entry_x_54
      "[rule_unknown_field, rule_x_debug]"]
  note u = exclusion_rule_semantics [of rule_unknown_field entry_x_55]
  have a: "\<forall>(k, v) \<in> set rule_x_debug. \<exists>x. entry_field entry_x_55 k = Some x \<and> py_eq x v"
    by (simp add: rule_x_debug_def entry_x_55_def entry_field_def candidate_def)
  have b1: "entry_field entry_x_55 ''app_name'' = entry_field entry_x_54 ''app_name''"
    by (simp add: entry_x_55_def entry_x_54_def entry_field_def candidate_def)
  have b2: "entry_field entry_x_55 ''build_type'' = entry_field entry_x_54 ''build_type''"
    by (simp add: entry_x_55_def entry_x_54_def entry_field_def candidate_def)
  from b1 b2
  have b: "\<forall>k \<in> fst ` set rule_x_debug. entry_field entry_x_55 k = entry_field entry_x_54 k"
    by (simp add: rule_x_debug_def)
  have c0: "''chip'' \<notin> set entry_fields"
    by (simp add: entry_fields_def)
  then have c: "\<exists>k \<in> fst ` set rule_unknown_field. k \<notin> set entry_fields"
    by (simp add: rule_unknown_field_def)
  from t a have m: "rule_matches rule_x_debug entry_x_55" by blast
  from t b m have m': "rule_matches rule_x_debug entry_x_54" by blast
  from u c have n: "\<not> rule_matches rule_unknown_field entry_x_55" by blast
  from t m have x: "is_excluded (YList (map YMap [rule_unknown_field, rule_x_debug])) entry_x_55
      = Inr True" by simp
  from m b1 b2 m' c0 n x show ?thesis by (intro conjI)
qed

section \<open>Build types of an app\<close>

lemma version_build_types_flat:
  assumes "map_of ac ''build_types'' = Some (YList bts)" and "bts \<noteq> []"
      and "list_all isinstance_str bts"
  shows "version_build_types d ac i v = Inr bts"
proof -
  from assms(2) obtain b rest where bts: "bts = b # rest" by (cases bts) auto
  with assms(3) have "\<not> isinstance_list b"
    by (auto simp: isinstance_str_def isinstance_list_def split: yaml.splits)
  with assms(1) bts show ?thesis
    by (simp add: version_build_types_def py_bind_def py_index_def py_iter_def)
qed

lemma effective_combinations_flat:
  assumes "map_of ac ''build_types'' = Some (YList bts)" and "bts \<noteq> []"
      and "list_all isinstance_str bts"
  shows "effective_combinations d ac i vs = Inr (concat (map (\<lambda>v. map (Pair v) bts) vs))"
  by (induction vs arbitrary: i)
     (simp_all add: py_bind_def version_build_types_flat [OF assms])

lemma version_build_types_nested:
  assumes "map_of ac ''build_types'' = Some (YList (map YList btss))" and "btss \<noteq> []"
  shows "version_build_types d ac i v =
           Inr (if i < length btss then btss ! i else [YStr ''Debug'', YStr ''Release''])"
proof -
  have first: "py_index (YList (map YList btss)) 0 = Inr (YList (btss ! 0))"
    using assms(2) by (simp add: py_index_def)
  have at: "i < length btss \<Longrightarrow> py_index (YList (map YList btss)) i = Inr (YList (btss ! i))"
    by (simp add: py_index_def)
  have len: "py_len (YList (map YList btss)) = Inr (length btss)"
    by (simp add: py_len_def)
  show ?thesis
    using assms(1) first at len
    by (simp add: version_build_types_def py_bind_def py_iter_def isinstance_list_def
        default_build_types_def)
qed

lemma effective_combinations_nested:
  assumes "map_of ac ''build_types'' = Some (YList (map YList btss))" and "btss \<noteq> []"
  shows "effective_combinations d ac i vs =
           Inr (concat (map (\<lambda>(j, v). map (Pair v)
                  (if j < length btss then btss ! j else [YStr ''Debug'', YStr ''Release'']))
                (enumerate i vs)))"
  by (induction vs arbitrary: i)
     (simp_all add: py_bind_def version_build_types_nested [OF assms])

lemma process_app_enabled:
  assumes "py_truthy (lookup_default ac ''ci_enabled'' (YBool True))"
      and "lookup_default ac ''idf_versions'' giv = YList vs"
  shows "process_app d excs tgt giv name (YMap ac) =
           py_bind (effective_combinations d ac 0 vs) (app_entries excs tgt name ac)"
  using assms
  by (simp add: process_app_def py_bind_def py_get_def py_iter_def lookup_default_def)

lemma enumerate_mapped:
  "enumerate n (map f xs) = map (\<lambda>(i, x). (i, f x)) (enumerate n xs)"
  by (induction xs arbitrary: n) auto

text \<open>
  A flat list with a first element: an app enabled for CI declares \<open>build_types\<close> as a
  nonempty list \<open>bts\<close> of strings, and its effective version list is \<open>vs\<close>. The shape
  test of line 211 finds the first element to be no list, and the pairs built for the app are
  every version paired with every element of \<open>bts\<close>, whatever the position of the
  version; the app's entries are the candidates of these pairs that no exclusion rule
  matches, so all of them when there is no rule.
\<close>

lemma flat_build_types_nonempty:
  assumes "map_of ac ''build_types'' = Some (YList bts)" and "bts \<noteq> []"
      and "list_all isinstance_str bts"
      and "py_truthy (lookup_default ac ''ci_enabled'' (YBool True))"
      and "lookup_default ac ''idf_versions'' giv = YList (map YStr vs)"
  shows "effective_combinations d ac 0 (map YStr vs) =
           Inr (concat (map (\<lambda>v. map (Pair (YStr v)) bts) vs)) \<and>
         process_app d (YList (map YMap rules)) tgt giv name (YMap ac) =
           Inr (filter (\<lambda>c. \<not> (\<exists>r \<in> set rules. rule_matches r c))
                  (concat (map (\<lambda>v. map (candidate tgt name ac v) bts) vs)))"
proof -
  have combos: "effective_combinations d ac 0 (map YStr vs) =
      Inr (concat (map (\<lambda>v. map (Pair (YStr v)) bts) vs))"
    by (simp add: effective_combinations_flat [OF assms(1-3)] comp_def)
  have shape: "concat (map (\<lambda>v. map (Pair (YStr v)) bts) vs) =
      map (\<lambda>(s, bt). (YStr s, bt)) (concat (map (\<lambda>v. map (Pair v) bts) vs))"
    by (simp add: map_concat comp_def)
  have cands: "map (\<lambda>(s, bt). candidate tgt name ac s bt) (concat (map (\<lambda>v. map (Pair v) bts) vs)) =
      concat (map (\<lambda>v. map (candidate tgt name ac v) bts) vs)"
    by (simp add: map_concat comp_def)
  have "process_app d (YList (map YMap rules)) tgt giv name (YMap ac) =
      Inr (filter (\<lambda>c. \<not> (\<exists>r \<in> set rules. rule_matches r c))
             (concat (map (\<lambda>v. map (candidate tgt name ac v) bts) vs)))"
    unfolding process_app_enabled [OF assms(4,5)] combos shape
    by (simp add: py_bind_def app_entries_rules cands)
  with combos show ?thesis by simp
qed

lemma flat_build_types_nonempty_example:
  "map_of app_flat ''build_types'' = Some (YList [YStr ''Debug'', YStr ''Release'']) \<and>
   lookup_default app_flat ''idf_versions'' (YList []) =
     YList (map YStr [''release/v5.4'', ''release/v5.5'']) \<and>
   process_app [] (YList (map YMap [])) (YStr ''esp32c6'') (YList []) ''gpio_test'' (YMap app_flat) =
     Inr [candidate (YStr ''esp32c6'') ''gpio_test'' app_flat ''release/v5.4'' (YStr ''Debug''),
          candidate (YStr ''esp32c6'') ''gpio_test'' app_flat ''release/v5.4'' (YStr ''Release''),
          candidate (YStr ''esp32c6'') ''gpio_test'' app_flat ''release/v5.5'' (YStr ''Debug''),
          candidate (YStr ''esp32c6'') ''gpio_test'' app_flat ''release/v5.5'' (YStr ''Release'')]"
proof -
  have a: "map_of app_flat ''build_types'' = Some (YList [YStr ''Debug'', YStr ''Release''])"
    by (simp add: app_flat_def)
  have b: "[YStr ''Debug'', YStr ''Release''] \<noteq> []" by simp
  have c: "list_all isinstance_str [YStr ''Debug'', YStr ''Release'']"
    by (simp add: isinstance_str_def)
  have d: "py_truthy (lookup_default app_flat ''ci_enabled'' (YBool True))"
    by (simp add: lookup_default_def app_flat_def)
  have e: "lookup_default app_flat ''idf_versions'' (YList []) =
      YList (map YStr [''release/v5.4'', ''release/v5.5''])"
    by (simp add: lookup_default_def app_flat_def)
  note t = flat_build_types_nonempty [OF a b c d e, of "[]" "[]" "YStr ''esp32c6''"
      "''gpio_test''", THEN conjunct2]
  from a e t show ?thesis by simp
qed

text \<open>The validator takes the empty list for the flat format and accepts it.\<close>

lemma validate_config_flat_empty:
  "validate_config (YMap cfg_flat_empty) = Inr (True, [], [])"
  by code_simp

text \<open>
  Claim C2 at the flat sequence with no string: an app declares two versions of its own and
  \<^verbatim>\<open>build_types: []\<close>. The claim gives the app the entries of the versions crossed with
  the empty list, that is none. The shape test \<^verbatim>\<open>app_build_types[0]\<close> of line 211
  runs before the flat branch is chosen, and on the empty list it raises IndexError: the
  generator returns nothing.
\<close>

theorem generate_matrix_flat_empty_list:
  "generate_matrix (YMap cfg_flat_empty) = Inl IndexError"
  by code_simp

text \<open>
  Claim C3: an app enabled for CI declares \<open>build_types\<close> as a sequence \<open>btss\<close> of sequences
  (a list whose first element exists and is a list), and its effective version list is
  \<open>vs\<close>. Then the build types of the version at position \<open>i\<close> are the elements of
  \<open>btss ! i\<close> when \<open>i\<close> is in range, and \<open>Debug\<close> and \<open>Release\<close> otherwise; the app's
  entries are the candidates of these pairs that no exclusion rule matches.
\<close>

theorem nested_build_types_by_position:
  assumes "map_of ac ''build_types'' = Some (YList (map YList btss))" and "btss \<noteq> []"
      and "py_truthy (lookup_default ac ''ci_enabled'' (YBool True))"
      and "lookup_default ac ''idf_versions'' giv = YList (map YStr vs)"
  shows "(\<forall>i v. version_build_types d ac i v =
            Inr (if i < length btss then btss ! i else [YStr ''Debug'', YStr ''Release''])) \<and>
         process_app d (YList (map YMap rules)) tgt giv name (YMap ac) =
           Inr (filter (\<lambda>c. \<not> (\<exists>r \<in> set rules. rule_matches r c))
                  (concat (map (\<lambda>(i, v). map (candidate tgt name ac v)
                     (if i < length btss then btss ! i else [YStr ''Debug'', YStr ''Release'']))
                   (enumerate 0 vs))))"
proof -
  let ?bts = "\<lambda>i. if i < length btss then btss ! i else [YStr ''Debug'', YStr ''Release'']"
  have combos: "effective_combinations d ac 0 (map YStr vs) =
      Inr (map (\<lambda>(s, bt). (YStr s, bt))
             (concat (map (\<lambda>(i, v). map (Pair v) (?bts i)) (enumerate 0 vs))))"
    by (simp add: effective_combinations_nested [OF assms(1,2)] enumerate_mapped
        map_concat comp_def case_prod_unfold cong: if_cong)
  have cands: "map (\<lambda>(s, bt). candidate tgt name ac s bt)
        (concat (map (\<lambda>(i, v). map (Pair v) (?bts i)) (enumerate 0 vs))) =
      concat (map (\<lambda>(i, v). map (candidate tgt name ac v) (?bts i)) (enumerate 0 vs))"
    by (simp add: map_concat comp_def case_prod_unfold)
  have "process_app d (YList (map YMap rules)) tgt giv name (YMap ac) =
      Inr (filter (\<lambda>c. \<not> (\<exists>r \<in> set rules. rule_matches r c))
             (concat (map (\<lambda>(i, v). map (candidate tgt name ac v) (?bts i)) (enumerate 0 vs))))"
    unfolding process_app_enabled [OF assms(3,4)] combos
    by (simp add: py_bind_def app_entries_rules cands)
  with version_build_types_nested [OF assms(1,2)] show ?thesis by simp
qed

theorem nested_build_types_by_position_witness:
  "map_of app_nested ''build_types'' = Some (YList (map YList [[YStr ''Release'']])) \<and>
   lookup_default app_nested ''idf_versions'' (YList []) =
     YList (map YStr [''release/v5.4'', ''release/v5.5'']) \<and>
   process_app [] (YList (map YMap [])) (YStr ''esp32c6'') (YList []) ''gpio_test'' (YMap app_nested) =
     Inr [candidate (YStr ''esp32c6'') ''gpio_test'' app_nested ''release/v5.4'' (YStr ''Release''),
          candidate (YStr ''esp32c6'') ''gpio_test'' app_nested ''release/v5.5'' (YStr ''Debug''),
          candidate (YStr ''esp32c6'') ''gpio_test'' app_nested ''release/v5.5'' (YStr ''Release'')]"
proof -
  have a: "map_of app_nested ''build_types'' = Some (YList (map YList [[YStr ''Release'']]))"
    by (simp add: app_nested_def)
  have b: "[[YStr ''Release'']] \<noteq> []" by simp
  have d: "py_truthy (lookup_default app_nested ''ci_enabled'' (YBool True))"
    by (simp add: lookup_default_def app_nested_def)
  have e: "lookup_default app_nested ''idf_versions'' (YList []) =
      YList (map YStr [''release/v5.4'', ''release/v5.5''])"
    by (simp add: lookup_default_def app_nested_def)
  note t = nested_build_types_by_position [OF a b d e, of "[]" "[]" "YStr ''esp32c6''"
      "''gpio_test''", THEN conjunct2]
  have en: "enumerate 0 [''release/v5.4'', ''release/v5.5''] =
      [(0, ''release/v5.4''), (Suc 0, ''release/v5.5'')]" by simp
  from a e t show ?thesis unfolding en by simp
qed

section \<open>The resolved matrix\<close>

text \<open>Every entry of the result is a candidate of one of the apps, and a successful run
  has read its parts from the document as follows.\<close>

lemma app_entries_member:
  "app_entries excs tgt name ac combos = Inr r \<Longrightarrow> e \<in> set r \<Longrightarrow>
   \<exists>s bt. e = candidate tgt name ac s bt"
proof (induction combos arbitrary: r)
  case Nil
  then show ?case by simp
next
  case (Cons p combos)
  obtain v bt where p: "p = (v, bt)" by (cases p)
  from Cons.prems(1) obtain s ex rest where v: "v = YStr s"
    and rest: "app_entries excs tgt name ac combos = Inr rest"
    and r: "r = (if ex then rest else candidate tgt name ac s bt # rest)"
    by (auto simp: p py_bind_def split: yaml.splits sum.splits)
  from Cons.prems(2) r have "e = candidate tgt name ac s bt \<or> e \<in> set rest"
    by (auto split: if_splits)
  with Cons.IH [OF rest] show ?case by blast
qed

lemma process_app_member:
  "process_app d excs tgt giv name app_config = Inr r \<Longrightarrow> e \<in> set r \<Longrightarrow>
   \<exists>ac s bt. app_config = YMap ac \<and> e = candidate tgt name ac s bt"
  by (auto simp: process_app_def py_bind_def py_get_def
      split: sum.splits yaml.splits if_splits dest: app_entries_member)

lemma apps_loop_member:
  "apps_loop d excs tgt giv items = Inr es \<Longrightarrow> e \<in> set es \<Longrightarrow>
   \<exists>name app_config r. (name, app_config) \<in> set items \<and>
     process_app d excs tgt giv name app_config = Inr r \<and> e \<in> set r"
proof (induction items arbitrary: es)
  case Nil
  then show ?case by simp
next
  case (Cons p items)
  obtain name app_config where p: "p = (name, app_config)" by (cases p)
  from Cons.prems(1) obtain r more where
    r: "process_app d excs tgt giv name app_config = Inr r" and
    more: "apps_loop d excs tgt giv items = Inr more" and es: "es = r @ more"
    by (auto simp: p py_bind_def split: sum.splits)
  from Cons.prems(2) es have "e \<in> set r \<or> e \<in> set more" by simp
  then show ?case
  proof
    assume "e \<in> set r"
    with r p show ?thesis by auto
  next
    assume "e \<in> set more"
    from Cons.IH [OF more this] show ?thesis by auto
  qed
qed

lemma generate_matrix_returns:
  assumes "generate_matrix config = Inr es"
  obtains c m vs d excs items where
    "config = YMap c" "map_of c ''metadata'' = Some (YMap m)"
    "py_iter (lookup_default m ''idf_versions'' (YList [YStr ''release/v5.5''])) = Inr vs"
    "build_idf_map (lookup_default m ''build_types'' (YList [default_build_types])) 0 vs [] = Inr d"
    "exclude_combinations config = Inr excs"
    "map_of c ''apps'' = Some (YMap items)"
    "apps_loop d excs (lookup_default m ''target'' (YStr ''esp32c6''))
       (lookup_default m ''idf_versions'' (YList [YStr ''release/v5.5''])) items = Inr es"
  using assms
  by (auto simp: generate_matrix_def py_bind_def py_getitem_def py_get_def py_items_def
      lookup_default_def split: sum.splits yaml.splits option.splits)

text \<open>
  Claim C8: in a document whose apps have distinct names, every entry of the result belongs
  to the app of its \<open>app_name\<close>; its \<open>config_source\<close> is \<open>global\<close> when that app has
  neither the key \<open>idf_versions\<close> nor the key \<open>build_types\<close>, and \<open>app\<close> when it has
  either.
\<close>

theorem config_source_provenance:
  assumes "generate_matrix (YMap c) = Inr es" and "map_of c ''apps'' = Some (YMap items)"
      and "distinct (map fst items)" and "e \<in> set es"
  shows "\<exists>ac. map_of items (app_name e) = Some (YMap ac) \<and>
           (''idf_versions'' \<notin> fst ` set ac \<and> ''build_types'' \<notin> fst ` set ac \<longrightarrow>
              config_source e = ''global'') \<and>
           (''idf_versions'' \<in> fst ` set ac \<or> ''build_types'' \<in> fst ` set ac \<longrightarrow>
              config_source e = ''app'')"
proof -
  from assms(1) obtain c' m vs d excs items' where
    c': "YMap c = YMap c'" and apps: "map_of c' ''apps'' = Some (YMap items')" and
    loop: "apps_loop d excs (lookup_default m ''target'' (YStr ''esp32c6''))
       (lookup_default m ''idf_versions'' (YList [YStr ''release/v5.5''])) items' = Inr es"
    by (rule generate_matrix_returns)
  from c' apps assms(2) have items: "items' = items" by simp
  from apps_loop_member [OF loop assms(4)] items obtain name app_config r where
    mem: "(name, app_config) \<in> set items" and
    r: "process_app d excs (lookup_default m ''target'' (YStr ''esp32c6''))
       (lookup_default m ''idf_versions'' (YList [YStr ''release/v5.5''])) name app_config = Inr r"
    and e: "e \<in> set r" by blast
  from process_app_member [OF r e] obtain ac s bt where ac: "app_config = YMap ac" and
    cand: "e = candidate (lookup_default m ''target'' (YStr ''esp32c6'')) name ac s bt" by blast
  from cand have n: "app_name e = name" by (simp add: candidate_def)
  from mem assms(3) ac n have "map_of items (app_name e) = Some (YMap ac)" by simp
  moreover from cand have "config_source e =
      (if ''build_types'' \<in> set (map fst ac) \<or> ''idf_versions'' \<in> set (map fst ac)
       then ''app'' else ''global'')" by (simp add: candidate_def)
  ultimately show ?thesis by auto
qed

theorem config_source_provenance_witness:
  "generate_matrix (YMap cfg_mixed) =
     Inr [candidate (YStr ''esp32c6'') ''gpio_test'' [] ''release/v5.5'' (YStr ''Debug''),
          candidate (YStr ''esp32c6'') ''gpio_test'' [] ''release/v5.5'' (YStr ''Release''),
          candidate (YStr ''esp32c6'') ''adc_test'' app_flat ''release/v5.4'' (YStr ''Debug''),
          candidate (YStr ''esp32c6'') ''adc_test'' app_flat ''release/v5.4'' (YStr ''Release''),
          candidate (YStr ''esp32c6'') ''adc_test'' app_flat ''release/v5.5'' (YStr ''Debug''),
          candidate (YStr ''esp32c6'') ''adc_test'' app_flat ''release/v5.5'' (YStr ''Release'')] \<and>
   map_of cfg_mixed ''apps'' = Some (YMap mixed_apps) \<and> distinct (map fst mixed_apps) \<and>
   config_source (candidate (YStr ''esp32c6'') ''gpio_test'' [] ''release/v5.5'' (YStr ''Debug''))
     = ''global'' \<and>
   config_source (candidate (YStr ''esp32c6'') ''adc_test'' app_flat ''release/v5.4'' (YStr ''Debug''))
     = ''app''"
proof -
  let ?e1 = "candidate (YStr ''esp32c6'') ''gpio_test'' [] ''release/v5.5'' (YStr ''Debug'')"
  let ?e2 = "candidate (YStr ''esp32c6'') ''adc_test'' app_flat ''release/v5.4'' (YStr ''Debug'')"
  have g: "generate_matrix (YMap cfg_mixed) =
     Inr [?e1,
          candidate (YStr ''esp32c6'') ''gpio_test'' [] ''release/v5.5'' (YStr ''Release''),
          ?e2,
          candidate (YStr ''esp32c6'') ''adc_test'' app_flat ''release/v5.4'' (YStr ''Release''),
          candidate (YStr ''esp32c6'') ''adc_test'' app_flat ''release/v5.5'' (YStr ''Debug''),
          candidate (YStr ''esp32c6'') ''adc_test'' app_flat ''release/v5.5'' (YStr ''Release'')]"
    by code_simp
  have a: "map_of cfg_mixed ''apps'' = Some (YMap mixed_apps)" by (simp add: cfg_mixed_def)
  have dst: "distinct (map fst mixed_apps)" by (simp add: mixed_apps_def)
  have n1: "app_name ?e1 = ''gpio_test''" by (simp add: candidate_def)
  have n2: "app_name ?e2 = ''adc_test''" by (simp add: candidate_def)
  have m1: "map_of mixed_apps ''gpio_test'' = Some (YMap [])" by (simp add: mixed_apps_def)
  have m2: "map_of mixed_apps ''adc_test'' = Some (YMap app_flat)" by (simp add: mixed_apps_def)
  have k: "''idf_versions'' \<in> fst ` set app_flat" by (simp add: app_flat_def)
  from config_source_provenance [OF g a dst, of ?e1] m1
  have c1: "config_source ?e1 = ''global''" unfolding n1 by auto
  from config_source_provenance [OF g a dst, of ?e2] m2 k
  have c2: "config_source ?e2 = ''app''" unfolding n2 by auto
  from g a dst c1 c2 show ?thesis by (intro conjI)
qed

section \<open>The rule without fields\<close>
















end
